theory Spec2Isabelle
  imports Main "HOL-Library.Word"
begin

section \<open>Bytes, struct and the file object\<close>

text \<open>
  A Python \<open>bytes\<close> value is a list of 8-bit words. Python integers are unbounded, so the
  header fields of the record are \<open>int\<close>; the bounds of the wire format are enforced only
  where \<open>struct.pack\<close> raises.
\<close>

type_synonym byte = "8 word"

text \<open>
  The exceptions the container code can raise, one constructor each:
  \<^item> \<open>BadMagic\<close>: \<open>ValueError("file format error: invalid magic number")\<close>;
  \<^item> \<open>UnsupportedVersion v\<close>: \<open>ValueError(f"unsupported version: {version}")\<close>;
  \<^item> \<open>Truncated\<close>: the \<open>struct.error\<close> of \<open>struct.unpack\<close> on a buffer whose length is not
    the size of the format (a short read);
  \<^item> \<open>OverflowError\<close>: the \<open>OverflowError\<close> of \<open>f.read(n)\<close> when \<open>n\<close> is more than a
    bytes object can hold;
  \<^item> \<open>MemoryError\<close>: the \<open>MemoryError\<close> of \<open>f.read(n)\<close> when the run cannot allocate
    \<open>n\<close> bytes;
  \<^item> \<open>PackOutOfRange\<close>: the \<open>struct.error\<close> of \<open>struct.pack\<close> on a number that does not fit
    the format;
  \<^item> \<open>NoneHasNoLen\<close>: the \<open>TypeError\<close> of \<open>len(None)\<close>.
\<close>

datatype error =
    BadMagic
  | UnsupportedVersion int
  | Truncated
  | OverflowError
  | MemoryError
  | PackOutOfRange
  | NoneHasNoLen

text \<open>The dataclass \<open>MilimgHeader\<close> of decode.py.\<close>

record MilimgHeader =
  version :: int
  width :: int
  height :: int
  color_payload :: "byte list"
  alpha_payload :: "byte list option"

text \<open>Big-endian unsigned encoding on \<open>n\<close> bytes, and its decoding.\<close>

fun be_bytes :: "nat \<Rightarrow> int \<Rightarrow> byte list" where
  "be_bytes 0 x = []"
| "be_bytes (Suc n) x = be_bytes n (x div 256) @ [word_of_int x]"

definition be_int :: "byte list \<Rightarrow> int" where
  "be_int bs = foldl (\<lambda>acc b. acc * 256 + uint b) 0 bs"

text \<open>
  \<open>struct.pack(">I", x)\<close> and \<open>struct.pack(">Q", x)\<close>: 4 and 8 bytes, big-endian, and
  \<open>struct.error\<close> when \<open>x\<close> is negative or too large.
\<close>

definition pack_I :: "int \<Rightarrow> error + byte list" where
  "pack_I x = (if 0 \<le> x \<and> x < 2 ^ 32 then Inr (be_bytes 4 x) else Inl PackOutOfRange)"

definition pack_Q :: "int \<Rightarrow> error + byte list" where
  "pack_Q x = (if 0 \<le> x \<and> x < 2 ^ 64 then Inr (be_bytes 8 x) else Inl PackOutOfRange)"

text \<open>
  \<open>struct.unpack\<close> raises \<open>struct.error\<close> unless the buffer has exactly the size of the
  format: 4 bytes for \<open>">I"\<close>, 8 for \<open>">Q"\<close>, 16 for \<open>">IIQ"\<close>.
\<close>

definition unpack_I :: "byte list \<Rightarrow> error + int" where
  "unpack_I buf = (if length buf = 4 then Inr (be_int buf) else Inl Truncated)"

definition unpack_Q :: "byte list \<Rightarrow> error + int" where
  "unpack_Q buf = (if length buf = 8 then Inr (be_int buf) else Inl Truncated)"

definition unpack_IIQ :: "byte list \<Rightarrow> error + int \<times> int \<times> int" where
  "unpack_IIQ buf =
     (if length buf = 16
      then Inr (be_int (take 4 buf), be_int (take 4 (drop 4 buf)), be_int (drop 8 buf))
      else Inl Truncated)"
text \<open>
  \<open>f.read(n)\<close> on a buffered file opened in binary mode allocates a bytes object for
  \<open>n\<close> bytes and fills it with the next \<open>n\<close> bytes of the file, or with all that are left
  when fewer remain: a short read is no exception. The allocation can fail. CPython on a
  64-bit platform raises \<open>OverflowError\<close> when \<open>n\<close> is more than the largest bytes object,
  \<open>2 ^ 63 - 34\<close> bytes, and \<open>MemoryError\<close> when the run cannot allocate \<open>n\<close> bytes. The
  parameter \<open>mem\<close> is the largest number of bytes the run can allocate for one read. The
  state is the unread rest of the file.
\<close>

definition max_bytes_len :: nat where
  "max_bytes_len = 2 ^ 63 - 34"

definition f_read :: "nat \<Rightarrow> nat \<Rightarrow> byte list \<Rightarrow> error + byte list \<times> byte list" where
  "f_read mem n f =
     (if max_bytes_len < n then Inl OverflowError
      else if mem < n then Inl MemoryError
      else Inr (take n f, drop n f))"

text \<open>The literal \<open>b"Milimg00"\<close>.\<close>

definition magic :: "byte list" where
  "magic = map of_char ''Milimg00''"

section \<open>The reader: \<open>parse_milimg_container\<close> (decode.py)\<close>

text \<open>
  The function, statement by statement, in a run that can allocate \<open>mem\<close> bytes for a
  read. An exception of a read leaves the function like any other.
\<close>

definition parse_milimg_container_mem :: "nat \<Rightarrow> byte list \<Rightarrow> error + MilimgHeader" where
  "parse_milimg_container_mem mem f0 =
     (case f_read mem 8 f0 of
        Inl e \<Rightarrow> Inl e
      | Inr (m, f1) \<Rightarrow>
          if m \<noteq> magic then Inl BadMagic
          else (case f_read mem 4 f1 of
             Inl e \<Rightarrow> Inl e
           | Inr (vb, f2) \<Rightarrow>
              (case unpack_I vb of
                 Inl e \<Rightarrow> Inl e
               | Inr ver \<Rightarrow>
                   if ver \<notin> set [0, 1] then Inl (UnsupportedVersion ver)
                   else (case f_read mem 16 f2 of
                      Inl e \<Rightarrow> Inl e
                    | Inr (hb, f3) \<Rightarrow>
                       (case unpack_IIQ hb of
                          Inl e \<Rightarrow> Inl e
                        | Inr (w, h, color_payload_size) \<Rightarrow>
                           (case f_read mem (nat color_payload_size) f3 of
                              Inl e \<Rightarrow> Inl e
                            | Inr (color, f4) \<Rightarrow>
                               if ver = 1
                               then (case f_read mem 8 f4 of
                                  Inl e \<Rightarrow> Inl e
                                | Inr (ab, f5) \<Rightarrow>
                                   (case unpack_Q ab of
                                      Inl e \<Rightarrow> Inl e
                                    | Inr alpha_payload_size \<Rightarrow>
                                       (case f_read mem (nat alpha_payload_size) f5 of
                                          Inl e \<Rightarrow> Inl e
                                        | Inr (alpha, f6) \<Rightarrow>
                                           Inr \<lparr>version = ver, width = w, height = h,
                                                color_payload = color,
                                                alpha_payload = Some alpha\<rparr>)))
                               else Inr \<lparr>version = ver, width = w, height = h,
                                         color_payload = color, alpha_payload = None\<rparr>))))))"

text \<open>
  The reader in a run where no read fails for lack of memory: every count a bytes object
  can hold can be allocated. Reads of more than that still raise \<open>OverflowError\<close>.
\<close>

definition parse_milimg_container :: "byte list \<Rightarrow> error + MilimgHeader" where
  "parse_milimg_container f0 = parse_milimg_container_mem max_bytes_len f0"

section \<open>The writer: \<open>encode_milimg\<close> (encode.py)\<close>

text \<open>
  The block that assembles the file (the \<open>with open(output_path, "wb")\<close> of
  \<open>encode_milimg\<close>), as a function of the five local variables it reads. The result is the
  content of the file when every \<open>f.write\<close> was reached, and the exception otherwise
  (the partly written file an exception leaves behind is not part of the result).
  \<open>alpha_payload\<close> is read only under \<open>if version == 1\<close>.
\<close>

definition assemble_milimg :: "MilimgHeader \<Rightarrow> error + byte list" where
  "assemble_milimg r =
     (let f0 = magic in
      (case pack_I (version r) of
         Inl e \<Rightarrow> Inl e
       | Inr vb \<Rightarrow>
          (let f1 = f0 @ vb in
           (case pack_I (width r) of
              Inl e \<Rightarrow> Inl e
            | Inr wb \<Rightarrow>
               (let f2 = f1 @ wb in
                (case pack_I (height r) of
                   Inl e \<Rightarrow> Inl e
                 | Inr hb \<Rightarrow>
                    (let f3 = f2 @ hb in
                     (case pack_Q (int (length (color_payload r))) of
                        Inl e \<Rightarrow> Inl e
                      | Inr cb \<Rightarrow>
                         (let f4 = f3 @ cb;
                              f5 = f4 @ color_payload r
                          in if version r = 1
                             then (case alpha_payload r of
                                     None \<Rightarrow> Inl NoneHasNoLen
                                   | Some alpha \<Rightarrow>
                                      (case pack_Q (int (length alpha)) of
                                         Inl e \<Rightarrow> Inl e
                                       | Inr lb \<Rightarrow>
                                          (let f6 = f5 @ lb in Inr (f6 @ alpha))))
                             else Inr f5)))))))))"

text \<open>
  \<open>encode_milimg\<close> with the results of its collaborators as parameters: \<open>use_alpha\<close> is
  what \<open>has_transparency(img)\<close> returned, \<open>w\<close> and \<open>h\<close> are \<open>img.size\<close>, \<open>color_enc\<close> is the
  AV1 stream of the colour image and \<open>alpha_enc\<close> the AV1 stream of the alpha channel (the
  encoder is called for it only when \<open>version == 1\<close>).
\<close>

definition encode_milimg :: "bool \<Rightarrow> int \<Rightarrow> int \<Rightarrow> byte list \<Rightarrow> byte list \<Rightarrow> error + byte list" where
  "encode_milimg use_alpha w h color_enc alpha_enc =
     (let ver = (if use_alpha then 1 else 0);
          alpha = (if ver = (1::int) then Some alpha_enc else None)
      in assemble_milimg \<lparr>version = ver, width = w, height = h,
                          color_payload = color_enc, alpha_payload = alpha\<rparr>)"

section \<open>The record and the layout of the format\<close>

text \<open>
  A valid record of the format: the version is 0 or 1, the alpha payload is absent exactly
  when the version is 0, width and height are unsigned 32-bit values, the payload lengths
  fit in 64 bits and the payloads are bytes objects, which hold at most \<open>max_bytes_len\<close>
  bytes (a list of HOL can be longer, a bytes object cannot).
\<close>

definition valid_record :: "MilimgHeader \<Rightarrow> bool" where
  "valid_record r \<longleftrightarrow>
     (version r = 0 \<or> version r = 1) \<and>
     (alpha_payload r = None \<longleftrightarrow> version r = 0) \<and>
     0 \<le> width r \<and> width r < 2 ^ 32 \<and>
     0 \<le> height r \<and> height r < 2 ^ 32 \<and>
     int (length (color_payload r)) < 2 ^ 64 \<and>
     length (color_payload r) \<le> max_bytes_len \<and>
     (case alpha_payload r of
        None \<Rightarrow> True
      | Some a \<Rightarrow> int (length a) < 2 ^ 64 \<and> length a \<le> max_bytes_len)"

text \<open>
  The run that reads a record back can allocate the buffers of the header reads and of
  the two payloads.
\<close>

definition enough_memory :: "nat \<Rightarrow> MilimgHeader \<Rightarrow> bool" where
  "enough_memory mem r \<longleftrightarrow>
     16 \<le> mem \<and> length (color_payload r) \<le> mem \<and>
     (case alpha_payload r of None \<Rightarrow> True | Some a \<Rightarrow> length a \<le> mem)"

text \<open>
  The byte layout of the format, following its table: magic, version, width, height, colour
  length, colour payload and, for version 1 only, alpha length and alpha payload. It is the
  reference the writer is compared with.
\<close>

definition container_layout :: "MilimgHeader \<Rightarrow> byte list" where
  "container_layout r =
     magic @ be_bytes 4 (version r) @ be_bytes 4 (width r) @ be_bytes 4 (height r) @
     be_bytes 8 (int (length (color_payload r))) @ color_payload r @
     (if version r = 1
      then (case alpha_payload r of
              None \<Rightarrow> []
            | Some a \<Rightarrow> be_bytes 8 (int (length a)) @ a)
      else [])"

section \<open>Big-endian fields\<close>

lemma magic_bytes: "magic = [0x4D, 0x69, 0x6C, 0x69, 0x6D, 0x67, 0x30, 0x30]"
  by (simp add: magic_def)

lemma length_magic: "length magic = 8"
  by (simp add: magic_def)

lemma length_be_bytes: "length (be_bytes n x) = n"
  by (induction n arbitrary: x) simp_all

lemma be_int_snoc: "be_int (bs @ [b]) = be_int bs * 256 + uint b"
  by (simp add: be_int_def)

lemma uint_byte_of_int: "uint (word_of_int x :: byte) = x mod 256"
  by (simp add: uint_word_of_int)

lemma be_int_be_bytes: "0 \<le> x \<Longrightarrow> x < 256 ^ n \<Longrightarrow> be_int (be_bytes n x) = x"
proof (induction n arbitrary: x)
  case 0
  then show ?case by (simp add: be_int_def)
next
  case (Suc n)
  have "0 \<le> x div 256" using Suc.prems(1) by simp
  moreover have "x div 256 < 256 ^ n" using Suc.prems(2) by (simp add: div_less_iff_less_mult mult.commute) 
  ultimately have "be_int (be_bytes n (x div 256)) = x div 256" by (rule Suc.IH)
  then show ?case by (simp add: be_int_snoc uint_byte_of_int)
qed

lemma take_magic_app: "take 8 (magic @ y) = magic" "drop 8 (magic @ y) = y"
  by (simp_all add: length_magic)

lemma take_be_app: "take n (be_bytes n x @ y) = be_bytes n x" "drop n (be_bytes n x @ y) = y"
  by (simp_all add: length_be_bytes)

lemma be4_roundtrip: "0 \<le> x \<Longrightarrow> x < 2 ^ 32 \<Longrightarrow> be_int (be_bytes 4 x) = x"
  using be_int_be_bytes [of x 4] by simp

lemma be8_roundtrip: "0 \<le> x \<Longrightarrow> x < 2 ^ 64 \<Longrightarrow> be_int (be_bytes 8 x) = x"
  using be_int_be_bytes [of x 8] by simp

lemma be_bytes_4:
  "be_bytes 4 x =
     [word_of_int (x div 16777216), word_of_int (x div 65536), word_of_int (x div 256),
      word_of_int x]"
  by (simp add: eval_nat_numeral zdiv_zmult2_eq [symmetric])

lemma be_bytes_8:
  "be_bytes 8 x =
     [word_of_int (x div 72057594037927936), word_of_int (x div 281474976710656),
      word_of_int (x div 1099511627776), word_of_int (x div 4294967296),
      word_of_int (x div 16777216), word_of_int (x div 65536), word_of_int (x div 256),
      word_of_int x]"
  by (simp add: eval_nat_numeral zdiv_zmult2_eq [symmetric])

section \<open>Symbolic execution of the reader\<close>

text \<open>
  The reads of the fixed-size fields succeed in a run that can allocate 16 bytes; a
  payload read succeeds when its count can be allocated.
\<close>

lemma max_bytes_len_ge_16: "16 \<le> max_bytes_len"
  by (simp add: max_bytes_len_def)

lemma max_bytes_len_less: "int max_bytes_len < 2 ^ 64"
  by (simp add: max_bytes_len_def)

lemma f_read_ok:
  "n \<le> max_bytes_len \<Longrightarrow> n \<le> mem \<Longrightarrow> f_read mem n f = Inr (take n f, drop n f)"
  by (simp add: f_read_def)

lemma f_read_fixed:
  assumes "16 \<le> mem"
  shows "f_read mem 8 f = Inr (take 8 f, drop 8 f)"
    and "f_read mem 4 f = Inr (take 4 f, drop 4 f)"
    and "f_read mem 16 f = Inr (take 16 f, drop 16 f)"
  using assms max_bytes_len_ge_16 by (simp_all add: f_read_ok)

lemma f_read_too_large: "max_bytes_len < n \<Longrightarrow> f_read mem n f = Inl OverflowError"
  by (simp add: f_read_def)

lemma f_read_no_memory:
  "n \<le> max_bytes_len \<Longrightarrow> mem < n \<Longrightarrow> f_read mem n f = Inl MemoryError"
  by (simp add: f_read_def)

text \<open>One lemma for each way through \<open>parse_milimg_container\<close>.\<close>

lemma parse_bad_magic:
  "16 \<le> mem \<Longrightarrow> take 8 f \<noteq> magic \<Longrightarrow> parse_milimg_container_mem mem f = Inl BadMagic"
  by (simp add: parse_milimg_container_mem_def f_read_fixed)

lemma parse_version_short:
  "16 \<le> mem \<Longrightarrow> take 8 f = magic \<Longrightarrow> unpack_I (take 4 (drop 8 f)) = Inl e \<Longrightarrow>
   parse_milimg_container_mem mem f = Inl e"
  by (simp add: parse_milimg_container_mem_def f_read_fixed)

lemma parse_version_bad:
  "16 \<le> mem \<Longrightarrow> take 8 f = magic \<Longrightarrow> unpack_I (take 4 (drop 8 f)) = Inr v \<Longrightarrow>
   v \<noteq> 0 \<Longrightarrow> v \<noteq> 1 \<Longrightarrow>
   parse_milimg_container_mem mem f = Inl (UnsupportedVersion v)"
  by (simp add: parse_milimg_container_mem_def f_read_fixed)

lemma parse_header_short:
  "16 \<le> mem \<Longrightarrow> take 8 f = magic \<Longrightarrow> unpack_I (take 4 (drop 8 f)) = Inr v \<Longrightarrow>
   v = 0 \<or> v = 1 \<Longrightarrow> unpack_IIQ (take 16 (drop 12 f)) = Inl e \<Longrightarrow>
   parse_milimg_container_mem mem f = Inl e"
  by (auto simp add: parse_milimg_container_mem_def f_read_fixed)

lemma parse_color_read_fails:
  "16 \<le> mem \<Longrightarrow> take 8 f = magic \<Longrightarrow> unpack_I (take 4 (drop 8 f)) = Inr v \<Longrightarrow>
   v = 0 \<or> v = 1 \<Longrightarrow> unpack_IIQ (take 16 (drop 12 f)) = Inr (w, h, n) \<Longrightarrow>
   f_read mem (nat n) (drop 28 f) = Inl e \<Longrightarrow>
   parse_milimg_container_mem mem f = Inl e"
  by (auto simp add: parse_milimg_container_mem_def f_read_fixed)

lemma parse_v0:
  "16 \<le> mem \<Longrightarrow> take 8 f = magic \<Longrightarrow> unpack_I (take 4 (drop 8 f)) = Inr 0 \<Longrightarrow>
   unpack_IIQ (take 16 (drop 12 f)) = Inr (w, h, n) \<Longrightarrow>
   nat n \<le> max_bytes_len \<Longrightarrow> nat n \<le> mem \<Longrightarrow>
   parse_milimg_container_mem mem f =
     Inr \<lparr>version = 0, width = w, height = h,
          color_payload = take (nat n) (drop 28 f), alpha_payload = None\<rparr>"
  by (simp add: parse_milimg_container_mem_def f_read_fixed f_read_ok)

lemma parse_v1_short:
  "16 \<le> mem \<Longrightarrow> take 8 f = magic \<Longrightarrow> unpack_I (take 4 (drop 8 f)) = Inr 1 \<Longrightarrow>
   unpack_IIQ (take 16 (drop 12 f)) = Inr (w, h, n) \<Longrightarrow>
   nat n \<le> max_bytes_len \<Longrightarrow> nat n \<le> mem \<Longrightarrow>
   unpack_Q (take 8 (drop (nat n + 28) f)) = Inl e \<Longrightarrow>
   parse_milimg_container_mem mem f = Inl e"
  by (simp add: parse_milimg_container_mem_def f_read_fixed f_read_ok)

lemma parse_alpha_read_fails:
  "16 \<le> mem \<Longrightarrow> take 8 f = magic \<Longrightarrow> unpack_I (take 4 (drop 8 f)) = Inr 1 \<Longrightarrow>
   unpack_IIQ (take 16 (drop 12 f)) = Inr (w, h, n) \<Longrightarrow>
   nat n \<le> max_bytes_len \<Longrightarrow> nat n \<le> mem \<Longrightarrow>
   unpack_Q (take 8 (drop (nat n + 28) f)) = Inr m \<Longrightarrow>
   f_read mem (nat m) (drop (nat n + 36) f) = Inl e \<Longrightarrow>
   parse_milimg_container_mem mem f = Inl e"
  by (simp add: parse_milimg_container_mem_def f_read_fixed f_read_ok add.commute)

lemma parse_v1:
  "16 \<le> mem \<Longrightarrow> take 8 f = magic \<Longrightarrow> unpack_I (take 4 (drop 8 f)) = Inr 1 \<Longrightarrow>
   unpack_IIQ (take 16 (drop 12 f)) = Inr (w, h, n) \<Longrightarrow>
   nat n \<le> max_bytes_len \<Longrightarrow> nat n \<le> mem \<Longrightarrow>
   unpack_Q (take 8 (drop (nat n + 28) f)) = Inr m \<Longrightarrow>
   nat m \<le> max_bytes_len \<Longrightarrow> nat m \<le> mem \<Longrightarrow>
   parse_milimg_container_mem mem f =
     Inr \<lparr>version = 1, width = w, height = h,
          color_payload = take (nat n) (drop 28 f),
          alpha_payload = Some (take (nat m) (drop (nat n + 36) f))\<rparr>"
  by (simp add: parse_milimg_container_mem_def f_read_fixed f_read_ok add.commute)

text \<open>
  Two runs on a 30-byte file whose header declares more colour bytes than the file holds.
  With a declared length of \<open>2 ^ 64 - 1\<close> the read raises \<open>OverflowError\<close> in every run;
  with a declared length of \<open>2 ^ 34\<close> it raises \<open>MemoryError\<close> in a run that can allocate
  4096 bytes, and returns the two bytes that are left in a run that can allocate that much.
\<close>

lemma declared_length_too_large:
  "parse_milimg_container_mem mem
     (map of_char ''Milimg00'' @ [0, 0, 0, 0] @ [0, 0, 0, 4] @ [0, 0, 0, 2] @
      [255, 255, 255, 255, 255, 255, 255, 255] @ [0x41, 0x42]) =
   (if mem < 16 then Inl MemoryError else Inl OverflowError)"
  by (simp add: parse_milimg_container_mem_def f_read_def max_bytes_len_def magic_def
      unpack_I_def unpack_IIQ_def be_int_def)

lemma declared_length_no_memory:
  "parse_milimg_container_mem 4096
     (map of_char ''Milimg00'' @ [0, 0, 0, 0] @ [0, 0, 0, 4] @ [0, 0, 0, 2] @
      [0, 0, 0, 4, 0, 0, 0, 0] @ [0x41, 0x42]) = Inl MemoryError"
  by (simp add: parse_milimg_container_mem_def f_read_def max_bytes_len_def magic_def
      unpack_I_def unpack_IIQ_def be_int_def)

lemma declared_length_enough_memory:
  "parse_milimg_container_mem (2 ^ 34)
     (map of_char ''Milimg00'' @ [0, 0, 0, 0] @ [0, 0, 0, 4] @ [0, 0, 0, 2] @
      [0, 0, 0, 4, 0, 0, 0, 0] @ [0x41, 0x42]) =
   Inr \<lparr>version = 0, width = 4, height = 2,
        color_payload = [0x41, 0x42], alpha_payload = None\<rparr>"
  by (simp add: parse_milimg_container_mem_def f_read_def max_bytes_len_def magic_def
      unpack_I_def unpack_IIQ_def be_int_def)

section \<open>The writer on valid records, and reading its output back\<close>

lemma valid_record_cases:
  assumes "valid_record r"
  obtains (v0) "version r = 0" "alpha_payload r = None"
  | (v1) a where "version r = 1" "alpha_payload r = Some a" "int (length a) < 2 ^ 64"
      "length a \<le> max_bytes_len"
  using assms by (cases "alpha_payload r") (auto simp: valid_record_def)

lemma assemble_valid:
  assumes "valid_record r"
  shows "assemble_milimg r = Inr (container_layout r)"
  using assms
proof (cases rule: valid_record_cases)
  case v0
  with assms show ?thesis
    by (simp add: assemble_milimg_def container_layout_def valid_record_def pack_I_def pack_Q_def)
next
  case (v1 a)
  with assms show ?thesis
    by (simp add: assemble_milimg_def container_layout_def valid_record_def pack_I_def pack_Q_def)
qed

lemma header_slices:
  fixes x :: "byte list"
  shows "take 8 (magic @ be_bytes 4 v @ be_bytes 4 w @ be_bytes 4 h @ be_bytes 8 n @ x) = magic"
    and "take 4 (drop 8 (magic @ be_bytes 4 v @ be_bytes 4 w @ be_bytes 4 h @ be_bytes 8 n @ x)) =
         be_bytes 4 v"
    and "take 16 (drop 12 (magic @ be_bytes 4 v @ be_bytes 4 w @ be_bytes 4 h @ be_bytes 8 n @ x)) =
         be_bytes 4 w @ be_bytes 4 h @ be_bytes 8 n"
    and "drop 28 (magic @ be_bytes 4 v @ be_bytes 4 w @ be_bytes 4 h @ be_bytes 8 n @ x) = x"
  by (simp_all add: length_magic length_be_bytes)

lemma unpack_header:
  assumes "0 \<le> w" "w < 2 ^ 32" "0 \<le> h" "h < 2 ^ 32" "0 \<le> n" "n < 2 ^ 64"
  shows "unpack_IIQ (be_bytes 4 w @ be_bytes 4 h @ be_bytes 8 n) = Inr (w, h, n)"
  using assms by (simp add: unpack_IIQ_def length_be_bytes be4_roundtrip be8_roundtrip)

lemma unpack_I_be: "0 \<le> v \<Longrightarrow> v < 2 ^ 32 \<Longrightarrow> unpack_I (be_bytes 4 v) = Inr v"
  by (simp add: unpack_I_def length_be_bytes be4_roundtrip)

lemma unpack_Q_be: "0 \<le> m \<Longrightarrow> m < 2 ^ 64 \<Longrightarrow> unpack_Q (be_bytes 8 m) = Inr m"
  by (simp add: unpack_Q_def length_be_bytes be8_roundtrip)

lemma parse_layout_append:
  assumes "valid_record r" and em: "enough_memory mem r"
  shows "parse_milimg_container_mem mem (container_layout r @ t) = Inr r"
  using assms(1)
proof (cases rule: valid_record_cases)
  case v0
  define x where "x = color_payload r @ t"
  define n where "n = int (length (color_payload r))"
  define f where "f = magic @ be_bytes 4 0 @ be_bytes 4 (width r) @ be_bytes 4 (height r) @ be_bytes 8 n @ x"
  have f: "container_layout r @ t = f"
    by (simp add: container_layout_def f_def x_def n_def v0)
  have n: "0 \<le> n" "n < 2 ^ 64" using assms by (simp_all add: n_def valid_record_def)
  have mem: "16 \<le> mem" using em by (simp add: enough_memory_def)
  have nb: "nat n \<le> max_bytes_len" "nat n \<le> mem"
    using assms by (simp_all add: n_def valid_record_def enough_memory_def)
  have wh: "0 \<le> width r" "width r < 2 ^ 32" "0 \<le> height r" "height r < 2 ^ 32"
    using assms by (simp_all add: valid_record_def)
  have 1: "take 8 f = magic" unfolding f_def by (rule header_slices)
  have 2: "unpack_I (take 4 (drop 8 f)) = Inr 0"
    unfolding f_def header_slices by (simp add: unpack_I_be)
  have 3: "unpack_IIQ (take 16 (drop 12 f)) = Inr (width r, height r, n)"
    unfolding f_def header_slices using wh n by (rule unpack_header)
  have 4: "drop 28 f = x" unfolding f_def by (rule header_slices)
  have "parse_milimg_container_mem mem f =
          Inr \<lparr>version = 0, width = width r, height = height r,
               color_payload = take (nat n) (drop 28 f), alpha_payload = None\<rparr>"
    using mem 1 2 3 nb by (rule parse_v0)
  also have "take (nat n) (drop 28 f) = color_payload r"
    by (simp add: 4 x_def n_def)
  finally show ?thesis using v0 by (simp add: f)
next
  case (v1 a)
  define x where "x = color_payload r @ be_bytes 8 (int (length a)) @ a @ t"
  define n where "n = int (length (color_payload r))"
  define f where "f = magic @ be_bytes 4 1 @ be_bytes 4 (width r) @ be_bytes 4 (height r) @ be_bytes 8 n @ x"
  have f: "container_layout r @ t = f"
    by (simp add: container_layout_def f_def x_def n_def v1)
  have n: "0 \<le> n" "n < 2 ^ 64" using assms by (simp_all add: n_def valid_record_def)
  have mem: "16 \<le> mem" using em by (simp add: enough_memory_def)
  have nb: "nat n \<le> max_bytes_len" "nat n \<le> mem"
    using assms by (simp_all add: n_def valid_record_def enough_memory_def)
  have wh: "0 \<le> width r" "width r < 2 ^ 32" "0 \<le> height r" "height r < 2 ^ 32"
    using assms by (simp_all add: valid_record_def)
  have 1: "take 8 f = magic" unfolding f_def by (rule header_slices)
  have 2: "unpack_I (take 4 (drop 8 f)) = Inr 1"
    unfolding f_def header_slices by (simp add: unpack_I_be)
  have 3: "unpack_IIQ (take 16 (drop 12 f)) = Inr (width r, height r, n)"
    unfolding f_def header_slices using wh n by (rule unpack_header)
  have 4: "drop 28 f = x" unfolding f_def by (rule header_slices)
  have d: "drop (nat n + 28) f = drop (nat n) (drop 28 f)" by (simp add: add.commute)
  have d': "drop (nat n + 36) f = drop 8 (drop (nat n) (drop 28 f))" by (simp add: add.commute)
  have 5: "unpack_Q (take 8 (drop (nat n + 28) f)) = Inr (int (length a))"
    unfolding d 4 using v1(3) by (simp add: x_def n_def length_be_bytes unpack_Q_be)
  have mb: "nat (int (length a)) \<le> max_bytes_len" "nat (int (length a)) \<le> mem"
    using v1 em by (simp_all add: enough_memory_def)
  have "parse_milimg_container_mem mem f =
          Inr \<lparr>version = 1, width = width r, height = height r,
               color_payload = take (nat n) (drop 28 f),
               alpha_payload = Some (take (nat (int (length a))) (drop (nat n + 36) f))\<rparr>"
    using mem 1 2 3 nb 5 mb by (rule parse_v1)
  also have "take (nat n) (drop 28 f) = color_payload r"
    by (simp add: 4 x_def n_def)
  also have "take (nat (int (length a))) (drop (nat n + 36) f) = a"
    unfolding d' 4 by (simp add: x_def n_def length_be_bytes)
  finally show ?thesis using v1 by (simp add: f)
qed

lemma assemble_succeeds_iff:
  "(\<exists>bs. assemble_milimg r = Inr bs) \<longleftrightarrow>
     0 \<le> version r \<and> version r < 2 ^ 32 \<and>
     0 \<le> width r \<and> width r < 2 ^ 32 \<and>
     0 \<le> height r \<and> height r < 2 ^ 32 \<and>
     int (length (color_payload r)) < 2 ^ 64 \<and>
     (version r = 1 \<longrightarrow> (\<exists>a. alpha_payload r = Some a \<and> int (length a) < 2 ^ 64))"
  by (cases "alpha_payload r")
    (auto simp add: assemble_milimg_def pack_I_def pack_Q_def Let_def split: if_splits)

section \<open>What the reader returns, and what the writer accepts\<close>

lemma f_read_cases:
  obtains (fails) e where "f_read mem n f = Inl e"
  | (reads) "n \<le> max_bytes_len" "n \<le> mem"
  by (cases "max_bytes_len < n"; cases "mem < n") (auto simp add: f_read_def)

lemma parse_result_coupled:
  assumes mem: "16 \<le> mem" and p: "parse_milimg_container_mem mem f = Inr r"
  shows "(version r = 0 \<and> alpha_payload r = None) \<or>
         (version r = 1 \<and> (\<exists>a. alpha_payload r = Some a))"
proof -
  have m: "take 8 f = magic"
    using p parse_bad_magic [OF mem, of f] by auto
  obtain v where v: "unpack_I (take 4 (drop 8 f)) = Inr v"
    using p parse_version_short [OF mem m] by (cases "unpack_I (take 4 (drop 8 f))") auto
  have v01: "v = 0 \<or> v = 1"
    using p parse_version_bad [OF mem m v] by auto
  obtain w h n where hd: "unpack_IIQ (take 16 (drop 12 f)) = Inr (w, h, n)"
    using p parse_header_short [OF mem m v v01]
    by (cases "unpack_IIQ (take 16 (drop 12 f))") auto
  have nb: "nat n \<le> max_bytes_len" "nat n \<le> mem"
    using p parse_color_read_fails [OF mem m v v01 hd]
    by (cases mem "nat n" "drop 28 f" rule: f_read_cases; simp)+
  from v01 show ?thesis
  proof
    assume "v = 0"
    then show ?thesis using p parse_v0 [OF mem m _ hd nb] v by auto
  next
    assume v1: "v = 1"
    then have v': "unpack_I (take 4 (drop 8 f)) = Inr 1" using v by simp
    obtain k where k: "unpack_Q (take 8 (drop (nat n + 28) f)) = Inr k"
      using p parse_v1_short [OF mem m v' hd nb]
      by (cases "unpack_Q (take 8 (drop (nat n + 28) f))") auto
    have kb: "nat k \<le> max_bytes_len" "nat k \<le> mem"
      using p parse_alpha_read_fails [OF mem m v' hd nb k]
      by (cases mem "nat k" "drop (nat n + 36) f" rule: f_read_cases; simp)+
    show ?thesis using p parse_v1 [OF mem m v' hd nb k kb] by auto
  qed
qed

lemma encode_milimg_record:
  "encode_milimg use_alpha w h color_enc alpha_enc =
     assemble_milimg \<lparr>version = (if use_alpha then 1 else 0), width = w, height = h,
                      color_payload = color_enc,
                      alpha_payload = (if use_alpha then Some alpha_enc else None)\<rparr>"
  by (simp add: encode_milimg_def)

lemma assemble_Inr_valid:
  assumes "assemble_milimg r = Inr bs" and "version r = 0 \<or> version r = 1"
    and "alpha_payload r = None \<longleftrightarrow> version r = 0"
    and "length (color_payload r) \<le> max_bytes_len"
    and "case alpha_payload r of None \<Rightarrow> True | Some a \<Rightarrow> length a \<le> max_bytes_len"
  shows "valid_record r"
proof -
  have "\<exists>bs. assemble_milimg r = Inr bs" using assms(1) by blast
  then show ?thesis
    using assms(2-5) unfolding assemble_succeeds_iff valid_record_def
    by (auto split: option.splits)
qed

lemma valid_enough_memory: "valid_record r \<Longrightarrow> enough_memory max_bytes_len r"
  by (auto simp add: valid_record_def enough_memory_def max_bytes_len_ge_16 split: option.splits)

section \<open>Reading a stream that was cut short\<close>

lemma drop_plus: "drop (a + b) xs = drop a (drop b xs)"
  by (simp add: add.commute)

lemma drop_plus_36: "drop (a + 36) xs = drop 8 (drop a (drop 28 xs))"
  by (simp add: add.commute)

lemma parse_short_read:
  assumes "16 \<le> mem" and "length f < 8"
  shows "parse_milimg_container_mem mem f = Inl BadMagic"
proof -
  have "length (take 8 f) \<noteq> length magic" using assms(2) by (simp add: length_magic)
  then have "take 8 f \<noteq> magic" by metis
  with assms(1) show ?thesis by (rule parse_bad_magic)
qed

lemma parse_after_header_v0:
  assumes "0 \<le> w" "w < 2 ^ 32" "0 \<le> h" "h < 2 ^ 32" "0 \<le> n" "n < 2 ^ 64"
    and mem: "16 \<le> mem" and nb: "nat n \<le> max_bytes_len" "nat n \<le> mem"
  shows "parse_milimg_container_mem mem
           (magic @ be_bytes 4 0 @ be_bytes 4 w @ be_bytes 4 h @ be_bytes 8 n @ y) =
         Inr \<lparr>version = 0, width = w, height = h,
              color_payload = take (nat n) y, alpha_payload = None\<rparr>"
proof -
  let ?f = "magic @ be_bytes 4 0 @ be_bytes 4 w @ be_bytes 4 h @ be_bytes 8 n @ y"
  have 1: "take 8 ?f = magic" by (rule header_slices)
  have 2: "unpack_I (take 4 (drop 8 ?f)) = Inr 0"
    unfolding header_slices by (simp add: unpack_I_be)
  have 3: "unpack_IIQ (take 16 (drop 12 ?f)) = Inr (w, h, n)"
    unfolding header_slices using assms(1-6) by (rule unpack_header)
  have 4: "drop 28 ?f = y" by (rule header_slices)
  show ?thesis using parse_v0 [OF mem 1 2 3 nb] unfolding 4 .
qed

lemma parse_after_header_v1_short:
  assumes "0 \<le> w" "w < 2 ^ 32" "0 \<le> h" "h < 2 ^ 32" "0 \<le> n" "n < 2 ^ 64"
    and "length (drop (nat n) y) < 8"
    and mem: "16 \<le> mem" and nb: "nat n \<le> max_bytes_len" "nat n \<le> mem"
  shows "parse_milimg_container_mem mem
           (magic @ be_bytes 4 1 @ be_bytes 4 w @ be_bytes 4 h @ be_bytes 8 n @ y) =
         Inl Truncated"
proof -
  let ?f = "magic @ be_bytes 4 1 @ be_bytes 4 w @ be_bytes 4 h @ be_bytes 8 n @ y"
  have 1: "take 8 ?f = magic" by (rule header_slices)
  have 2: "unpack_I (take 4 (drop 8 ?f)) = Inr 1"
    unfolding header_slices by (simp add: unpack_I_be)
  have 3: "unpack_IIQ (take 16 (drop 12 ?f)) = Inr (w, h, n)"
    unfolding header_slices using assms(1-6) by (rule unpack_header)
  have 4: "drop 28 ?f = y" by (rule header_slices)
  have d: "drop (nat n + 28) ?f = drop (nat n) (drop 28 ?f)" by (rule drop_plus)
  have 5: "unpack_Q (take 8 (drop (nat n + 28) ?f)) = Inl Truncated"
    unfolding d 4 using assms(7) by (simp add: unpack_Q_def)
  show ?thesis using mem 1 2 3 nb 5 by (rule parse_v1_short)
qed

lemma parse_after_header_v1:
  assumes "0 \<le> w" "w < 2 ^ 32" "0 \<le> h" "h < 2 ^ 32" "0 \<le> n" "n < 2 ^ 64"
    and "0 \<le> m" "m < 2 ^ 64"
    and "take 8 (drop (nat n) y) = be_bytes 8 m"
    and mem: "16 \<le> mem" and nb: "nat n \<le> max_bytes_len" "nat n \<le> mem"
    and mb: "nat m \<le> max_bytes_len" "nat m \<le> mem"
  shows "parse_milimg_container_mem mem
           (magic @ be_bytes 4 1 @ be_bytes 4 w @ be_bytes 4 h @ be_bytes 8 n @ y) =
         Inr \<lparr>version = 1, width = w, height = h,
              color_payload = take (nat n) y,
              alpha_payload = Some (take (nat m) (drop 8 (drop (nat n) y)))\<rparr>"
proof -
  let ?f = "magic @ be_bytes 4 1 @ be_bytes 4 w @ be_bytes 4 h @ be_bytes 8 n @ y"
  have 1: "take 8 ?f = magic" by (rule header_slices)
  have 2: "unpack_I (take 4 (drop 8 ?f)) = Inr 1"
    unfolding header_slices by (simp add: unpack_I_be)
  have 3: "unpack_IIQ (take 16 (drop 12 ?f)) = Inr (w, h, n)"
    unfolding header_slices using assms(1-6) by (rule unpack_header)
  have 4: "drop 28 ?f = y" by (rule header_slices)
  have d: "drop (nat n + 28) ?f = drop (nat n) (drop 28 ?f)" by (rule drop_plus)
  have d': "drop (nat n + 36) ?f = drop 8 (drop (nat n) (drop 28 ?f))" by (rule drop_plus_36)
  have 5: "unpack_Q (take 8 (drop (nat n + 28) ?f)) = Inr m"
    unfolding d 4 assms(9) using assms(7,8) by (rule unpack_Q_be)
  show ?thesis using parse_v1 [OF mem 1 2 3 nb 5 mb] unfolding d' 4 .
qed

lemma parse_cut_in_version:
  assumes "take 8 s = magic" "8 \<le> k" "k < 12" and mem: "16 \<le> mem"
  shows "parse_milimg_container_mem mem (take k s) = Inl Truncated"
proof -
  have 1: "take 8 (take k s) = magic" using assms(1,2) by (simp add: min_def)
  have "length (take 4 (drop 8 (take k s))) < 4" using assms(3) by simp
  then have 2: "unpack_I (take 4 (drop 8 (take k s))) = Inl Truncated"
    by (simp add: unpack_I_def)
  from mem 1 2 show ?thesis by (rule parse_version_short)
qed

lemma parse_cut_in_header:
  assumes "take 8 s = magic" "unpack_I (take 4 (drop 8 s)) = Inr v" "v = 0 \<or> v = 1"
    and "12 \<le> k" "k < 28" and mem: "16 \<le> mem"
  shows "parse_milimg_container_mem mem (take k s) = Inl Truncated"
proof -
  have 1: "take 8 (take k s) = magic" using assms(1,4) by (simp add: min_def)
  have "take 4 (drop 8 (take k s)) = take 4 (drop 8 s)"
    using assms(4) by (simp add: drop_take min_def)
  then have 2: "unpack_I (take 4 (drop 8 (take k s))) = Inr v" using assms(2) by simp
  have "length (take 16 (drop 12 (take k s))) < 16" using assms(5) by simp
  then have 3: "unpack_IIQ (take 16 (drop 12 (take k s))) = Inl Truncated"
    by (simp add: unpack_IIQ_def)
  from mem 1 2 assms(3) 3 show ?thesis by (rule parse_header_short)
qed

lemma take_past_header:
  fixes x :: "byte list"
  assumes "28 \<le> k"
  shows "take k (magic @ be_bytes 4 v @ be_bytes 4 w @ be_bytes 4 h @ be_bytes 8 n @ x) =
         magic @ be_bytes 4 v @ be_bytes 4 w @ be_bytes 4 h @ be_bytes 8 n @ take (k - 28) x"
  using assms by (simp add: length_magic length_be_bytes)

lemma layout_slices:
  assumes "valid_record r"
  shows "take 8 (container_layout r) = magic"
    and "unpack_I (take 4 (drop 8 (container_layout r))) = Inr (version r)"
proof -
  show "take 8 (container_layout r) = magic"
    unfolding container_layout_def by (rule header_slices)
  have "take 4 (drop 8 (container_layout r)) = be_bytes 4 (version r)"
    unfolding container_layout_def by (rule header_slices)
  moreover have "0 \<le> version r" "version r < 2 ^ 32"
    using assms by (auto simp: valid_record_def)
  ultimately show "unpack_I (take 4 (drop 8 (container_layout r))) = Inr (version r)"
    by (simp add: unpack_I_be)
qed

lemma truncated_layout_v0:
  assumes v: "valid_record r" and v0: "version r = 0"
    and k: "28 \<le> k" "k < length (container_layout r)"
    and em: "enough_memory mem r"
  shows "parse_milimg_container_mem mem (take k (container_layout r)) =
         Inr (r\<lparr>color_payload := take (k - 28) (color_payload r)\<rparr>)"
proof -
  have al: "alpha_payload r = None" using v v0 by (simp add: valid_record_def)
  have wh: "0 \<le> width r" "width r < 2 ^ 32" "0 \<le> height r" "height r < 2 ^ 32"
    "0 \<le> int (length (color_payload r))" "int (length (color_payload r)) < 2 ^ 64"
    using v by (simp_all add: valid_record_def)
  have mem: "16 \<le> mem" using em by (simp add: enough_memory_def)
  have nb: "nat (int (length (color_payload r))) \<le> max_bytes_len"
    "nat (int (length (color_payload r))) \<le> mem"
    using v em by (simp_all add: valid_record_def enough_memory_def)
  have len: "length (container_layout r) = 28 + length (color_payload r)"
    by (simp add: container_layout_def v0 length_magic length_be_bytes)
  have cl: "container_layout r =
      magic @ be_bytes 4 0 @ be_bytes 4 (width r) @ be_bytes 4 (height r) @
      be_bytes 8 (int (length (color_payload r))) @ color_payload r"
    by (simp add: container_layout_def v0)
  have "parse_milimg_container_mem mem (take k (container_layout r)) =
        Inr \<lparr>version = 0, width = width r, height = height r,
             color_payload = take (nat (int (length (color_payload r))))
                               (take (k - 28) (color_payload r)),
             alpha_payload = None\<rparr>"
    unfolding cl take_past_header [OF k(1)] using wh mem nb by (rule parse_after_header_v0)
  moreover have "take (nat (int (length (color_payload r)))) (take (k - 28) (color_payload r)) =
      take (k - 28) (color_payload r)"
    using k len by (auto simp add: min_def)
  ultimately show ?thesis using v0 al by simp
qed

lemma truncated_layout_v1_short:
  assumes v: "valid_record r" and v1: "version r = 1"
    and k: "28 \<le> k" "k < 36 + length (color_payload r)"
    and em: "enough_memory mem r"
  shows "parse_milimg_container_mem mem (take k (container_layout r)) = Inl Truncated"
proof -
  obtain a where al: "alpha_payload r = Some a"
    using v v1 by (cases "alpha_payload r") (auto simp: valid_record_def)
  have wh: "0 \<le> width r" "width r < 2 ^ 32" "0 \<le> height r" "height r < 2 ^ 32"
    "0 \<le> int (length (color_payload r))" "int (length (color_payload r)) < 2 ^ 64"
    using v by (simp_all add: valid_record_def)
  have mem: "16 \<le> mem" using em by (simp add: enough_memory_def)
  have nb: "nat (int (length (color_payload r))) \<le> max_bytes_len"
    "nat (int (length (color_payload r))) \<le> mem"
    using v em by (simp_all add: valid_record_def enough_memory_def)
  let ?x = "color_payload r @ be_bytes 8 (int (length a)) @ a"
  have cl: "container_layout r =
      magic @ be_bytes 4 1 @ be_bytes 4 (width r) @ be_bytes 4 (height r) @
      be_bytes 8 (int (length (color_payload r))) @ ?x"
    by (simp add: container_layout_def v1 al)
  have "length (drop (nat (int (length (color_payload r)))) (take (k - 28) ?x)) < 8"
    using k by (simp add: length_be_bytes)
  with wh have "parse_milimg_container_mem mem
      (magic @ be_bytes 4 1 @ be_bytes 4 (width r) @ be_bytes 4 (height r) @
       be_bytes 8 (int (length (color_payload r))) @ take (k - 28) ?x) = Inl Truncated"
    using mem nb by (rule parse_after_header_v1_short)
  then show ?thesis unfolding cl take_past_header [OF k(1)] .
qed

lemma truncated_layout_v1:
  assumes v: "valid_record r" and v1: "version r = 1"
    and k: "36 + length (color_payload r) \<le> k" "k < length (container_layout r)"
    and em: "enough_memory mem r"
  shows "parse_milimg_container_mem mem (take k (container_layout r)) =
         Inr (r\<lparr>alpha_payload :=
                  Some (take (k - (36 + length (color_payload r))) (the (alpha_payload r)))\<rparr>)"
proof -
  obtain a where al: "alpha_payload r = Some a"
    using v v1 by (cases "alpha_payload r") (auto simp: valid_record_def)
  have wh: "0 \<le> width r" "width r < 2 ^ 32" "0 \<le> height r" "height r < 2 ^ 32"
    "0 \<le> int (length (color_payload r))" "int (length (color_payload r)) < 2 ^ 64"
    using v by (simp_all add: valid_record_def)
  have mem: "16 \<le> mem" using em by (simp add: enough_memory_def)
  have nb: "nat (int (length (color_payload r))) \<le> max_bytes_len"
    "nat (int (length (color_payload r))) \<le> mem"
    using v em by (simp_all add: valid_record_def enough_memory_def)
  have m: "0 \<le> int (length a)" "int (length a) < 2 ^ 64"
    using v al by (simp_all add: valid_record_def)
  have mb: "nat (int (length a)) \<le> max_bytes_len" "nat (int (length a)) \<le> mem"
    using v em al by (simp_all add: valid_record_def enough_memory_def)
  let ?x = "color_payload r @ be_bytes 8 (int (length a)) @ a"
  have cl: "container_layout r =
      magic @ be_bytes 4 1 @ be_bytes 4 (width r) @ be_bytes 4 (height r) @
      be_bytes 8 (int (length (color_payload r))) @ ?x"
    by (simp add: container_layout_def v1 al)
  have len: "length (container_layout r) = 36 + length (color_payload r) + length a"
    by (simp add: cl length_magic length_be_bytes)
  have k28: "28 \<le> k" using k(1) by simp
  have t8: "take 8 (drop (nat (int (length (color_payload r)))) (take (k - 28) ?x)) =
            be_bytes 8 (int (length a))"
    using k(1) by (simp add: length_be_bytes)
  have c: "take (nat (int (length (color_payload r)))) (take (k - 28) ?x) = color_payload r"
    using k(1) by (simp add: min_def)
  have t: "take (nat (int (length a)))
             (drop 8 (drop (nat (int (length (color_payload r)))) (take (k - 28) ?x))) =
           take (k - (36 + length (color_payload r))) a"
    using k len by (auto simp add: length_be_bytes min_def)
  have "parse_milimg_container_mem mem (take k (container_layout r)) =
        Inr \<lparr>version = 1, width = width r, height = height r,
             color_payload = take (nat (int (length (color_payload r)))) (take (k - 28) ?x),
             alpha_payload = Some (take (nat (int (length a)))
               (drop 8 (drop (nat (int (length (color_payload r)))) (take (k - 28) ?x))))\<rparr>"
    unfolding cl take_past_header [OF k28] using wh m t8 mem nb mb
    by (rule parse_after_header_v1)
  then show ?thesis unfolding c t using v1 al by simp
qed

lemma assemble_Inr_layout:
  assumes "assemble_milimg r = Inr bs" and "version r = 0 \<or> version r = 1"
    and "alpha_payload r = None \<longleftrightarrow> version r = 0"
  shows "bs = container_layout r"
  using assms
  by (cases "alpha_payload r")
    (auto simp add: assemble_milimg_def pack_I_def pack_Q_def Let_def container_layout_def
      split: if_splits)

section \<open>The claims\<close>

text \<open>
  Claim C1. Round trip: for every valid record, the reader applied to the bytes the writer
  produces returns the same record: same version, width, height, the exact colour payload
  and the exact alpha payload (or its absence).
\<close>

theorem roundtrip:
  "valid_record r \<Longrightarrow>
   \<exists>bs. assemble_milimg r = Inr bs \<and> parse_milimg_container bs = Inr r"
  using assemble_valid [of r] parse_layout_append [OF _ valid_enough_memory, of r "[]"]
  by (simp add: parse_milimg_container_def)

theorem roundtrip_witness:
  "valid_record \<lparr>version = 1, width = 4, height = 2,
                 color_payload = [0x41, 0x42], alpha_payload = Some [0x43]\<rparr> \<and>
   (\<exists>bs. assemble_milimg \<lparr>version = 1, width = 4, height = 2,
                 color_payload = [0x41, 0x42], alpha_payload = Some [0x43]\<rparr> = Inr bs \<and>
         parse_milimg_container bs =
           Inr \<lparr>version = 1, width = 4, height = 2,
                color_payload = [0x41, 0x42], alpha_payload = Some [0x43]\<rparr>) \<and>
   valid_record \<lparr>version = 0, width = 0, height = 0,
                 color_payload = [], alpha_payload = None\<rparr> \<and>
   (\<exists>bs. assemble_milimg \<lparr>version = 0, width = 0, height = 0,
                 color_payload = [], alpha_payload = None\<rparr> = Inr bs \<and>
         parse_milimg_container bs =
           Inr \<lparr>version = 0, width = 0, height = 0,
                color_payload = [], alpha_payload = None\<rparr>)"
  using roundtrip [of "\<lparr>version = 1, width = 4, height = 2,
                 color_payload = [0x41, 0x42], alpha_payload = Some [0x43]\<rparr>"]
    roundtrip [of "\<lparr>version = 0, width = 0, height = 0,
                 color_payload = [], alpha_payload = None\<rparr>"]
  by (simp add: valid_record_def max_bytes_len_def)

text \<open>
  Claim C2, as stated: every strict prefix of the stream written for a valid record is
  rejected with the truncation error. The reader does not do that. \<open>f.read(n)\<close> returns
  the bytes that are left when fewer than \<open>n\<close> remain, and only \<open>struct.unpack\<close> raises on
  a short buffer: a cut inside the last payload is read as a shorter payload, and a cut
  inside the magic is reported as an invalid magic. Here the 30-byte stream of scenario A
  cut after 29 bytes is read as a record with the one-byte colour payload \<open>b"A"\<close>, and
  cut after 7 bytes it is rejected with the invalid-magic error.
\<close>

theorem truncation_counterexample:
  "valid_record \<lparr>version = 0, width = 4, height = 2,
                 color_payload = [0x41, 0x42], alpha_payload = None\<rparr> \<and>
   assemble_milimg \<lparr>version = 0, width = 4, height = 2,
                    color_payload = [0x41, 0x42], alpha_payload = None\<rparr> =
     Inr (map of_char ''Milimg00'' @ [0, 0, 0, 0] @ [0, 0, 0, 4] @ [0, 0, 0, 2] @
          [0, 0, 0, 0, 0, 0, 0, 2] @ [0x41, 0x42]) \<and>
   29 < length (map of_char ''Milimg00'' @ [0, 0, 0, 0] @ [0, 0, 0, 4] @ [0, 0, 0, 2] @
          [0, 0, 0, 0, 0, 0, 0, 2] @ [0x41, 0x42 :: byte]) \<and>
   parse_milimg_container
     (take 29 (map of_char ''Milimg00'' @ [0, 0, 0, 0] @ [0, 0, 0, 4] @ [0, 0, 0, 2] @
          [0, 0, 0, 0, 0, 0, 0, 2] @ [0x41, 0x42])) =
     Inr \<lparr>version = 0, width = 4, height = 2,
          color_payload = [0x41], alpha_payload = None\<rparr> \<and>
   parse_milimg_container
     (take 29 (map of_char ''Milimg00'' @ [0, 0, 0, 0] @ [0, 0, 0, 4] @ [0, 0, 0, 2] @
          [0, 0, 0, 0, 0, 0, 0, 2] @ [0x41, 0x42])) \<noteq> Inl Truncated \<and>
   parse_milimg_container
     (take 7 (map of_char ''Milimg00'' @ [0, 0, 0, 0] @ [0, 0, 0, 4] @ [0, 0, 0, 2] @
          [0, 0, 0, 0, 0, 0, 0, 2] @ [0x41, 0x42])) = Inl BadMagic"
  by (simp add: valid_record_def assemble_milimg_def magic_def pack_I_def pack_Q_def
      be_bytes_4 be_bytes_8 parse_milimg_container_def parse_milimg_container_mem_def
      f_read_def max_bytes_len_def unpack_I_def unpack_IIQ_def unpack_Q_def be_int_def)

text \<open>
  Claim C2, amended: for a valid record with colour length N, the stream \<open>s\<close> written
  for it, a cut at \<open>k < length s\<close> and a run that can allocate the buffers of the header
  reads and of the two payloads of the record, the reader on the first \<open>k\<close> bytes
  \<^item> fails with the invalid-magic error when \<open>k < 8\<close>;
  \<^item> fails with the truncation error when \<open>8 \<le> k < 28\<close> (version, width, height and
    colour length) and, for version 1, when \<open>28 \<le> k < 36 + N\<close> (colour payload and alpha
    length);
  \<^item> succeeds when the cut is inside the last payload (the colour payload for version 0,
    the alpha payload for version 1) and returns the record with that payload shortened to
    the bytes that are present;
  and on the whole stream it succeeds with the record.
\<close>

theorem truncated_stream:
  assumes v: "valid_record r" and a: "assemble_milimg r = Inr s" and k: "k < length s"
    and em: "enough_memory mem r"
  shows "parse_milimg_container_mem mem (take k s) =
           (if k < 8 then Inl BadMagic
            else if k < 28 then Inl Truncated
            else if version r = 0
              then Inr (r\<lparr>color_payload := take (k - 28) (color_payload r)\<rparr>)
            else if k < 36 + length (color_payload r) then Inl Truncated
            else Inr (r\<lparr>alpha_payload :=
                        Some (take (k - (36 + length (color_payload r)))
                                (the (alpha_payload r)))\<rparr>)) \<and>
         parse_milimg_container_mem mem s = Inr r"
proof
  have s: "s = container_layout r" using assemble_valid [OF v] a by simp
  show "parse_milimg_container_mem mem s = Inr r"
    using parse_layout_append [OF v em, of "[]"] by (simp add: s)
  have mem: "16 \<le> mem" using em by (simp add: enough_memory_def)
  have v01: "version r = 0 \<or> version r = 1" using v by (simp add: valid_record_def)
  consider (magic) "k < 8" | (ver) "8 \<le> k" "k < 12" | (hdr) "12 \<le> k" "k < 28"
    | (c0) "28 \<le> k" "version r = 0"
    | (c1) "28 \<le> k" "version r = 1" "k < 36 + length (color_payload r)"
    | (a1) "version r = 1" "36 + length (color_payload r) \<le> k"
    using v01 by linarith
  then show "parse_milimg_container_mem mem (take k s) =
           (if k < 8 then Inl BadMagic
            else if k < 28 then Inl Truncated
            else if version r = 0
              then Inr (r\<lparr>color_payload := take (k - 28) (color_payload r)\<rparr>)
            else if k < 36 + length (color_payload r) then Inl Truncated
            else Inr (r\<lparr>alpha_payload :=
                        Some (take (k - (36 + length (color_payload r)))
                                (the (alpha_payload r)))\<rparr>))"
  proof cases
    case magic
    then have "length (take k s) < 8" by simp
    with mem have "parse_milimg_container_mem mem (take k s) = Inl BadMagic"
      by (rule parse_short_read)
    then show ?thesis using magic by simp
  next
    case ver
    have "parse_milimg_container_mem mem (take k s) = Inl Truncated"
      using layout_slices(1) [OF v] ver mem unfolding s by (rule parse_cut_in_version)
    then show ?thesis using ver by simp
  next
    case hdr
    have "parse_milimg_container_mem mem (take k s) = Inl Truncated"
      using layout_slices [OF v] v01 hdr mem unfolding s by (rule parse_cut_in_header)
    then show ?thesis using hdr by simp
  next
    case c0
    have "parse_milimg_container_mem mem (take k s) =
          Inr (r\<lparr>color_payload := take (k - 28) (color_payload r)\<rparr>)"
      using v c0(2,1) k em unfolding s by (rule truncated_layout_v0)
    then show ?thesis using c0 by simp
  next
    case c1
    have "parse_milimg_container_mem mem (take k s) = Inl Truncated"
      using v c1(2,1,3) em unfolding s by (rule truncated_layout_v1_short)
    then show ?thesis using c1 by simp
  next
    case a1
    have "parse_milimg_container_mem mem (take k s) =
          Inr (r\<lparr>alpha_payload :=
                  Some (take (k - (36 + length (color_payload r))) (the (alpha_payload r)))\<rparr>)"
      using v a1 k em unfolding s by (rule truncated_layout_v1)
    then show ?thesis using a1 by simp
  qed
qed

theorem truncated_stream_witness:
  "valid_record \<lparr>version = 1, width = 4, height = 2,
                 color_payload = [0x41, 0x42], alpha_payload = Some [0x43, 0x44]\<rparr> \<and>
   assemble_milimg \<lparr>version = 1, width = 4, height = 2,
                    color_payload = [0x41, 0x42], alpha_payload = Some [0x43, 0x44]\<rparr> =
     Inr (map of_char ''Milimg00'' @ [0, 0, 0, 1] @ [0, 0, 0, 4] @ [0, 0, 0, 2] @
          [0, 0, 0, 0, 0, 0, 0, 2] @ [0x41, 0x42] @ [0, 0, 0, 0, 0, 0, 0, 2] @ [0x43, 0x44]) \<and>
   enough_memory 64 \<lparr>version = 1, width = 4, height = 2,
                 color_payload = [0x41, 0x42], alpha_payload = Some [0x43, 0x44]\<rparr> \<and>
   parse_milimg_container_mem 64
     (take 39 (map of_char ''Milimg00'' @ [0, 0, 0, 1] @ [0, 0, 0, 4] @ [0, 0, 0, 2] @
          [0, 0, 0, 0, 0, 0, 0, 2] @ [0x41, 0x42] @ [0, 0, 0, 0, 0, 0, 0, 2] @ [0x43, 0x44])) =
     Inr \<lparr>version = 1, width = 4, height = 2,
          color_payload = [0x41, 0x42], alpha_payload = Some [0x43]\<rparr> \<and>
   parse_milimg_container_mem 64
     (take 33 (map of_char ''Milimg00'' @ [0, 0, 0, 1] @ [0, 0, 0, 4] @ [0, 0, 0, 2] @
          [0, 0, 0, 0, 0, 0, 0, 2] @ [0x41, 0x42] @ [0, 0, 0, 0, 0, 0, 0, 2] @ [0x43, 0x44])) =
     Inl Truncated \<and>
   parse_milimg_container_mem 64
     (take 5 (map of_char ''Milimg00'' @ [0, 0, 0, 1] @ [0, 0, 0, 4] @ [0, 0, 0, 2] @
          [0, 0, 0, 0, 0, 0, 0, 2] @ [0x41, 0x42] @ [0, 0, 0, 0, 0, 0, 0, 2] @ [0x43, 0x44])) =
     Inl BadMagic"
proof -
  let ?r = "\<lparr>version = 1, width = 4, height = 2,
                 color_payload = [0x41, 0x42], alpha_payload = Some [0x43, 0x44 :: byte]\<rparr>"
  let ?s = "map of_char ''Milimg00'' @ [0, 0, 0, 1] @ [0, 0, 0, 4] @ [0, 0, 0, 2] @
          [0, 0, 0, 0, 0, 0, 0, 2] @ [0x41, 0x42] @ [0, 0, 0, 0, 0, 0, 0, 2] @ [0x43, 0x44 :: byte]"
  have v: "valid_record ?r" by (simp add: valid_record_def max_bytes_len_def)
  have em: "enough_memory 64 ?r" by (simp add: enough_memory_def)
  have a: "assemble_milimg ?r = Inr ?s"
    by (simp add: assemble_milimg_def magic_def pack_I_def pack_Q_def be_bytes_4 be_bytes_8)
  have k1: "39 < length ?s" and k2: "33 < length ?s" and k3: "5 < length ?s" by simp_all
  have 1: "parse_milimg_container_mem 64 (take 39 ?s) =
     Inr \<lparr>version = 1, width = 4, height = 2,
          color_payload = [0x41, 0x42], alpha_payload = Some [0x43]\<rparr>"
    using truncated_stream [OF v a k1 em] by simp
  have 2: "parse_milimg_container_mem 64 (take 33 ?s) = Inl Truncated"
    using truncated_stream [OF v a k2 em] by simp
  have 3: "parse_milimg_container_mem 64 (take 5 ?s) = Inl BadMagic"
    using truncated_stream [OF v a k3 em] by simp
  from v a em 1 2 3 show ?thesis by (simp only: simp_thms)
qed

text \<open>
  Claim C4. Every input whose first eight bytes are not exactly the ASCII signature
  \<open>Milimg00\<close> is rejected with the invalid-magic error, whatever follows the eight bytes
  and also when nothing follows them.
\<close>

theorem wrong_magic_rejected:
  "take 8 f \<noteq> map of_char ''Milimg00'' \<Longrightarrow> parse_milimg_container f = Inl BadMagic"
  unfolding parse_milimg_container_def
  by (rule parse_bad_magic [OF max_bytes_len_ge_16]) (simp add: magic_def)

theorem wrong_magic_rejected_witness:
  "take 8 (map of_char ''Milimg01'' @ [0, 0, 0, 0, 0, 0, 0, 4 :: byte]) \<noteq> map of_char ''Milimg00'' \<and>
   parse_milimg_container (map of_char ''Milimg01'' @ [0, 0, 0, 0, 0, 0, 0, 4]) = Inl BadMagic \<and>
   take 8 (map of_char ''Milimg0X'' :: byte list) \<noteq> map of_char ''Milimg00'' \<and>
   parse_milimg_container (map of_char ''Milimg0X'') = Inl BadMagic"
  using wrong_magic_rejected [of "map of_char ''Milimg01'' @ [0, 0, 0, 0, 0, 0, 0, 4]"]
    wrong_magic_rejected [of "map of_char ''Milimg0X''"]
  by simp

text \<open>
  Claim C5. Every input that begins with the magic and carries a four-byte big-endian
  version field with a value other than 0 and 1 is rejected with the unsupported-version
  error, which reports that value.
\<close>

theorem unsupported_version_rejected:
  assumes "take 8 f = map of_char ''Milimg00''"
    and "12 \<le> length f"
    and "be_int (take 4 (drop 8 f)) \<noteq> 0"
    and "be_int (take 4 (drop 8 f)) \<noteq> 1"
  shows "parse_milimg_container f = Inl (UnsupportedVersion (be_int (take 4 (drop 8 f))))"
proof -
  have m: "take 8 f = magic" using assms(1) by (simp add: magic_def)
  have "unpack_I (take 4 (drop 8 f)) = Inr (be_int (take 4 (drop 8 f)))"
    using assms(2) by (simp add: unpack_I_def)
  with max_bytes_len_ge_16 m show ?thesis
    unfolding parse_milimg_container_def using assms(3,4) by (rule parse_version_bad)
qed

theorem unsupported_version_rejected_witness:
  "take 8 (map of_char ''Milimg00'' @ [0, 0, 0, 2 :: byte]) = map of_char ''Milimg00'' \<and>
   12 \<le> length (map of_char ''Milimg00'' @ [0, 0, 0, 2 :: byte]) \<and>
   be_int (take 4 (drop 8 (map of_char ''Milimg00'' @ [0, 0, 0, 2]))) \<noteq> 0 \<and>
   be_int (take 4 (drop 8 (map of_char ''Milimg00'' @ [0, 0, 0, 2]))) \<noteq> 1 \<and>
   parse_milimg_container (map of_char ''Milimg00'' @ [0, 0, 0, 2]) = Inl (UnsupportedVersion 2)"
  using unsupported_version_rejected [of "map of_char ''Milimg00'' @ [0, 0, 0, 2]"]
  by (simp add: be_int_def)

text \<open>
  Claim C6. For every valid record the writer produces exactly the concatenation, without
  padding, of the magic, the version, width and height on four bytes each, the colour
  length on eight bytes, the colour payload and, only for version 1, the alpha length on
  eight bytes and the alpha payload, all integers big-endian; the output has 28 + N bytes
  for version 0 and 36 + N + M bytes for version 1.
\<close>

theorem serialized_layout:
  assumes "valid_record r"
  shows "\<exists>bs. assemble_milimg r = Inr bs \<and>
           bs = map of_char ''Milimg00'' @
                be_bytes 4 (version r) @ be_bytes 4 (width r) @ be_bytes 4 (height r) @
                be_bytes 8 (int (length (color_payload r))) @ color_payload r @
                (if version r = 1
                 then be_bytes 8 (int (length (the (alpha_payload r)))) @ the (alpha_payload r)
                 else []) \<and>
           length bs = (if version r = 0 then 28 + length (color_payload r)
                        else 36 + length (color_payload r) + length (the (alpha_payload r)))"
  using assms
proof (cases rule: valid_record_cases)
  case v0
  then show ?thesis
    using assemble_valid [OF assms]
    by (simp add: container_layout_def length_be_bytes magic_def)
next
  case (v1 a)
  then show ?thesis
    using assemble_valid [OF assms]
    by (simp add: container_layout_def length_be_bytes magic_def)
qed

theorem serialized_layout_witness:
  "valid_record \<lparr>version = 1, width = 258, height = 3,
                 color_payload = [1, 2, 3, 4, 5], alpha_payload = Some [6, 7, 8]\<rparr> \<and>
   (\<exists>bs. assemble_milimg \<lparr>version = 1, width = 258, height = 3,
                 color_payload = [1, 2, 3, 4, 5], alpha_payload = Some [6, 7, 8]\<rparr> = Inr bs \<and>
         bs = map of_char ''Milimg00'' @ [0, 0, 0, 1] @ [0, 0, 1, 2] @ [0, 0, 0, 3] @
              [0, 0, 0, 0, 0, 0, 0, 5] @ [1, 2, 3, 4, 5] @
              [0, 0, 0, 0, 0, 0, 0, 3] @ [6, 7, 8] \<and>
         length bs = 44)"
  using serialized_layout [of "\<lparr>version = 1, width = 258, height = 3,
                 color_payload = [1, 2, 3, 4, 5], alpha_payload = Some [6, 7, 8]\<rparr>"]
  by (simp add: valid_record_def max_bytes_len_def be_bytes_4 be_bytes_8)

text \<open>
  Claim C7. The record with version 0, width 4, height 2 and colour payload \<open>b"AB"\<close> is
  written as exactly 30 bytes: the magic, then 00000000, 00000004, 00000002,
  0000000000000002 in hexadecimal, then the bytes 0x41 and 0x42.
\<close>

theorem scenario_A_bytes:
  "assemble_milimg \<lparr>version = 0, width = 4, height = 2,
                    color_payload = [0x41, 0x42], alpha_payload = None\<rparr> =
     Inr (map of_char ''Milimg00'' @ [0, 0, 0, 0] @ [0, 0, 0, 4] @ [0, 0, 0, 2] @
          [0, 0, 0, 0, 0, 0, 0, 2] @ [0x41, 0x42]) \<and>
   length (map of_char ''Milimg00'' @ [0, 0, 0, 0] @ [0, 0, 0, 4] @ [0, 0, 0, 2] @
           [0, 0, 0, 0, 0, 0, 0, 2] @ [0x41, 0x42 :: byte]) = 30"
  by (simp add: assemble_milimg_def magic_def pack_I_def pack_Q_def eval_nat_numeral)

text \<open>
  Claim C8. Every record the reader returns has version 0 or 1, with the alpha payload
  absent exactly for version 0 and present (possibly empty) exactly for version 1. Every
  stream \<open>encode_milimg\<close> writes carries 0 or 1 in its version field and is the stream of
  a record with that coupling, which the reader returns for it (the encoded payloads being
  bytes objects, of at most \<open>max_bytes_len\<close> bytes).
\<close>

theorem coupled_invariant:
  "(parse_milimg_container f = Inr r \<longrightarrow>
      (version r = 0 \<or> version r = 1) \<and>
      (alpha_payload r = None \<longleftrightarrow> version r = 0) \<and>
      (alpha_payload r \<noteq> None \<longleftrightarrow> version r = 1)) \<and>
   (encode_milimg use_alpha w h color_enc alpha_enc = Inr bs \<longrightarrow>
      (be_int (take 4 (drop 8 bs)) = 0 \<or> be_int (take 4 (drop 8 bs)) = 1) \<and>
      (\<exists>r'. (length color_enc \<le> max_bytes_len \<and>
             (use_alpha \<longrightarrow> length alpha_enc \<le> max_bytes_len) \<longrightarrow>
             parse_milimg_container bs = Inr r') \<and>
            assemble_milimg r' = Inr bs \<and>
            (version r' = 0 \<or> version r' = 1) \<and>
            (alpha_payload r' = None \<longleftrightarrow> version r' = 0) \<and>
            (alpha_payload r' \<noteq> None \<longleftrightarrow> version r' = 1) \<and>
            be_int (take 4 (drop 8 bs)) = version r'))"
proof (intro conjI impI)
  assume p: "parse_milimg_container f = Inr r"
  from parse_result_coupled [OF max_bytes_len_ge_16 p [unfolded parse_milimg_container_def]]
  show "version r = 0 \<or> version r = 1"
    and "alpha_payload r = None \<longleftrightarrow> version r = 0"
    and "alpha_payload r \<noteq> None \<longleftrightarrow> version r = 1"
    by auto
next
  assume e: "encode_milimg use_alpha w h color_enc alpha_enc = Inr bs"
  define r' where "r' = \<lparr>version = (if use_alpha then 1 else 0), width = w, height = h,
                      color_payload = color_enc,
                      alpha_payload = (if use_alpha then Some alpha_enc else None)\<rparr>"
  have a: "assemble_milimg r' = Inr bs" using e by (simp add: encode_milimg_record r'_def)
  have c: "version r' = 0 \<or> version r' = 1" "alpha_payload r' = None \<longleftrightarrow> version r' = 0"
    "alpha_payload r' \<noteq> None \<longleftrightarrow> version r' = 1"
    by (simp_all add: r'_def)
  have bs: "bs = container_layout r'" using a c(1,2) by (rule assemble_Inr_layout)
  have p: "parse_milimg_container bs = Inr r'"
    if b: "length color_enc \<le> max_bytes_len \<and>
           (use_alpha \<longrightarrow> length alpha_enc \<le> max_bytes_len)"
  proof -
    have b1: "length (color_payload r') \<le> max_bytes_len" using b by (simp add: r'_def)
    have b2: "case alpha_payload r' of None \<Rightarrow> True | Some a \<Rightarrow> length a \<le> max_bytes_len"
      using b by (simp add: r'_def)
    have v: "valid_record r'" using a c(1,2) b1 b2 by (rule assemble_Inr_valid)
    show ?thesis
      using parse_layout_append [OF v valid_enough_memory [OF v], of "[]"]
      by (simp add: bs parse_milimg_container_def)
  qed
  have "take 4 (drop 8 bs) = be_bytes 4 (version r')"
    by (simp add: bs container_layout_def length_magic length_be_bytes)
  then have f: "be_int (take 4 (drop 8 bs)) = version r'"
    using c(1) by (auto simp add: be4_roundtrip)
  show "be_int (take 4 (drop 8 bs)) = 0 \<or> be_int (take 4 (drop 8 bs)) = 1"
    using f c(1) by simp
  show "\<exists>r'. (length color_enc \<le> max_bytes_len \<and>
             (use_alpha \<longrightarrow> length alpha_enc \<le> max_bytes_len) \<longrightarrow>
             parse_milimg_container bs = Inr r') \<and>
            assemble_milimg r' = Inr bs \<and>
            (version r' = 0 \<or> version r' = 1) \<and>
            (alpha_payload r' = None \<longleftrightarrow> version r' = 0) \<and>
            (alpha_payload r' \<noteq> None \<longleftrightarrow> version r' = 1) \<and>
            be_int (take 4 (drop 8 bs)) = version r'"
  proof (intro exI [of _ r'] conjI)
    show "length color_enc \<le> max_bytes_len \<and>
             (use_alpha \<longrightarrow> length alpha_enc \<le> max_bytes_len) \<longrightarrow>
             parse_milimg_container bs = Inr r'"
      using p by blast
    show "assemble_milimg r' = Inr bs" by (rule a)
    show "version r' = 0 \<or> version r' = 1" by (rule c(1))
    show "alpha_payload r' = None \<longleftrightarrow> version r' = 0" by (rule c(2))
    show "alpha_payload r' \<noteq> None \<longleftrightarrow> version r' = 1" by (rule c(3))
    show "be_int (take 4 (drop 8 bs)) = version r'" by (rule f)
  qed
qed

theorem coupled_invariant_witness:
  "parse_milimg_container
     (map of_char ''Milimg00'' @ [0, 0, 0, 1] @ [0, 0, 0, 4] @ [0, 0, 0, 2] @
      [0, 0, 0, 0, 0, 0, 0, 2] @ [0x41, 0x42] @ [0, 0, 0, 0, 0, 0, 0, 1] @ [0x43]) =
     Inr \<lparr>version = 1, width = 4, height = 2,
          color_payload = [0x41, 0x42], alpha_payload = Some [0x43]\<rparr> \<and>
   encode_milimg True 4 2 [0x41, 0x42] [0x43] =
     Inr (map of_char ''Milimg00'' @ [0, 0, 0, 1] @ [0, 0, 0, 4] @ [0, 0, 0, 2] @
          [0, 0, 0, 0, 0, 0, 0, 2] @ [0x41, 0x42] @ [0, 0, 0, 0, 0, 0, 0, 1] @ [0x43]) \<and>
   be_int (take 4 (drop 8
     (map of_char ''Milimg00'' @ [0, 0, 0, 1] @ [0, 0, 0, 4] @ [0, 0, 0, 2] @
      [0, 0, 0, 0, 0, 0, 0, 2] @ [0x41, 0x42] @ [0, 0, 0, 0, 0, 0, 0, 1] @ [0x43 :: byte]))) = 1 \<and>
   (\<exists>r'. parse_milimg_container
           (map of_char ''Milimg00'' @ [0, 0, 0, 1] @ [0, 0, 0, 4] @ [0, 0, 0, 2] @
            [0, 0, 0, 0, 0, 0, 0, 2] @ [0x41, 0x42] @ [0, 0, 0, 0, 0, 0, 0, 1] @ [0x43]) = Inr r' \<and>
         version r' = 1 \<and> alpha_payload r' \<noteq> None)"
proof -
  let ?bs = "map of_char ''Milimg00'' @ [0, 0, 0, 1] @ [0, 0, 0, 4] @ [0, 0, 0, 2] @
      [0, 0, 0, 0, 0, 0, 0, 2] @ [0x41, 0x42] @ [0, 0, 0, 0, 0, 0, 0, 1] @ [0x43 :: byte]"
  let ?r = "\<lparr>version = 1, width = 4, height = 2,
          color_payload = [0x41, 0x42], alpha_payload = Some [0x43]\<rparr>"
  have e: "encode_milimg True 4 2 [0x41, 0x42] [0x43] = Inr ?bs"
    by (simp add: encode_milimg_def assemble_milimg_def magic_def pack_I_def pack_Q_def
        be_bytes_4 be_bytes_8)
  have p: "parse_milimg_container ?bs = Inr ?r"
    by (simp add: parse_milimg_container_def parse_milimg_container_mem_def f_read_def
        max_bytes_len_def magic_def unpack_I_def unpack_IIQ_def unpack_Q_def be_int_def)
  have b: "length [0x41, 0x42 :: byte] \<le> max_bytes_len \<and>
           (True \<longrightarrow> length [0x43 :: byte] \<le> max_bytes_len)"
    by (simp add: max_bytes_len_def)
  from coupled_invariant [of ?bs ?r True 4 2 "[0x41, 0x42]" "[0x43]" ?bs] e p b
  show ?thesis by auto
qed

text \<open>
  Claim C9. The reader does not look at what follows the last declared payload: for the
  stream written for a valid record and any bytes appended to it, the reader succeeds and
  returns the same record as on the stream alone.
\<close>

theorem trailing_bytes_ignored:
  assumes "valid_record r" and "assemble_milimg r = Inr s"
  shows "parse_milimg_container (s @ t) = parse_milimg_container s \<and>
         parse_milimg_container s = Inr r"
proof -
  have s: "s = container_layout r" using assemble_valid [OF assms(1)] assms(2) by simp
  show ?thesis
    using parse_layout_append [OF assms(1) valid_enough_memory [OF assms(1)], of t]
      parse_layout_append [OF assms(1) valid_enough_memory [OF assms(1)], of "[]"]
    by (simp add: s parse_milimg_container_def)
qed

theorem trailing_bytes_ignored_witness:
  "valid_record \<lparr>version = 0, width = 4, height = 2,
                 color_payload = [0x41, 0x42], alpha_payload = None\<rparr> \<and>
   assemble_milimg \<lparr>version = 0, width = 4, height = 2,
                    color_payload = [0x41, 0x42], alpha_payload = None\<rparr> =
     Inr (map of_char ''Milimg00'' @ [0, 0, 0, 0] @ [0, 0, 0, 4] @ [0, 0, 0, 2] @
          [0, 0, 0, 0, 0, 0, 0, 2] @ [0x41, 0x42]) \<and>
   parse_milimg_container
     ((map of_char ''Milimg00'' @ [0, 0, 0, 0] @ [0, 0, 0, 4] @ [0, 0, 0, 2] @
       [0, 0, 0, 0, 0, 0, 0, 2] @ [0x41, 0x42]) @ [0xFF, 0xFE, 0xFD]) =
     Inr \<lparr>version = 0, width = 4, height = 2,
          color_payload = [0x41, 0x42], alpha_payload = None\<rparr>"
proof -
  have v: "valid_record \<lparr>version = 0, width = 4, height = 2,
                 color_payload = [0x41, 0x42], alpha_payload = None\<rparr>"
    by (simp add: valid_record_def max_bytes_len_def)
  have a: "assemble_milimg \<lparr>version = 0, width = 4, height = 2,
                    color_payload = [0x41, 0x42], alpha_payload = None\<rparr> =
     Inr (map of_char ''Milimg00'' @ [0, 0, 0, 0] @ [0, 0, 0, 4] @ [0, 0, 0, 2] @
          [0, 0, 0, 0, 0, 0, 0, 2] @ [0x41, 0x42])"
    by (simp add: assemble_milimg_def magic_def pack_I_def pack_Q_def eval_nat_numeral)
  from trailing_bytes_ignored [OF v a, of "[0xFF, 0xFE, 0xFD]"] v a show ?thesis
    by (simp only: simp_thms)
qed

text \<open>
  Claim C10. Every input shorter than eight bytes, the empty one included, is rejected with
  the invalid-magic error, not with a truncation error: the short read is compared with
  the magic.
\<close>

theorem short_input_bad_magic:
  "length f < 8 \<Longrightarrow> parse_milimg_container f = Inl BadMagic"
proof -
  assume "length f < 8"
  then have "length (take 8 f) \<noteq> length magic" by (simp add: length_magic)
  then have "take 8 f \<noteq> magic" by metis
  with max_bytes_len_ge_16 show ?thesis
    unfolding parse_milimg_container_def by (rule parse_bad_magic)
qed

theorem short_input_bad_magic_witness:
  "length ([] :: byte list) < 8 \<and> parse_milimg_container [] = Inl BadMagic \<and>
   length [0x4D, 0x69, 0x6C, 0x69, 0x6D, 0x67, 0x30 :: byte] < 8 \<and>
   parse_milimg_container [0x4D, 0x69, 0x6C, 0x69, 0x6D, 0x67, 0x30] = Inl BadMagic"
  using short_input_bad_magic [of "[]"]
    short_input_bad_magic [of "[0x4D, 0x69, 0x6C, 0x69, 0x6D, 0x67, 0x30]"]
  by simp

end
